theory Spec2Isabelle
  imports
    Main
    "HOL-Library.Word"
    "HOL-Library.Char_ord"
    "HOL-Library.List_Lexorder"
    "HOL-Library.AList"
begin

section \<open>Wire messages (stc/mutex.proto)\<close>

text \<open>
  The four protobuf messages. Every message has a string \<open>node_id\<close> or a bool, and a
  \<open>uint64 lamport_timestamp\<close>; the timestamp is a 64-bit word, so that \<open>+\<close> wraps
  around as Go's \<open>uint64\<close> does. Field names are prefixed per message, since the
  messages share them. A Go \<open>string\<close> is a byte sequence, and \<open><\<close> on it compares
  bytewise, a proper prefix being smaller: the lexicographic order on \<open>char list\<close>.
\<close>

type_synonym uint64 = "64 word"

record AccessRequest =
  NodeId :: string
  LamportTimestamp :: uint64

record AccessResponse =
  Granted :: bool
  resp_LamportTimestamp :: uint64

record ReleaseRequest =
  rel_NodeId :: string
  rel_LamportTimestamp :: uint64

record ReleaseResponse =
  Acknowledged :: bool
  ack_LamportTimestamp :: uint64

section \<open>The node (peer/peer.go, type Node)\<close>

text \<open>
  \<open>Peers\<close> is Go's \<open>map[string]pb.MutexServiceClient\<close>: an association list, looked up
  with \<open>map_of\<close> (a missing key gives the nil client, \<open>None\<close>), whose order stands for
  the order in which \<open>range\<close> visits the map. A client is named by the address it was
  dialled for. \<open>DeferredResponses\<close> is the \<open>container/list\<close> of requester identities,
  front first. \<open>CurrentRequest\<close> is a pointer, nil being \<open>None\<close>. \<open>Release\<close> is the
  buffered channel \<open>chan bool\<close> of capacity 1: the values it holds, oldest first.
  The three mutexes are not modelled: every operation below runs alone.
\<close>

type_synonym client = string

record Node =
  ID :: string
  Address :: string
  Peers :: "(string \<times> client) list"
  LamportClock :: uint64
  WantCS :: bool
  InCS :: bool
  DeferredResponses :: "string list"
  ResponseCount :: int
  CurrentRequest :: "AccessRequest option"
  Release :: "bool list"

definition NewNode :: "string \<Rightarrow> string \<Rightarrow> Node" where
  "NewNode ident address =
     \<lparr>ID = ident, Address = address, Peers = [], LamportClock = 0,
      WantCS = False, InCS = False, DeferredResponses = [], ResponseCount = 0,
      CurrentRequest = None, Release = []\<rparr>"

text \<open>The capacity of the \<open>Release\<close> channel, \<open>make(chan bool, 1)\<close>.\<close>

definition Release_cap :: nat where
  "Release_cap = 1"

text \<open>
  The state of the protocol, as the comments on \<open>WantCS\<close> and \<open>InCS\<close> give it:
  \<open>InCS\<close> is HELD, \<open>WantCS\<close> is WANTED, neither is RELEASED. While the critical section
  runs both flags are set, and the node is HELD.
\<close>

datatype state = RELEASED | WANTED | HELD

definition state_of :: "Node \<Rightarrow> state" where
  "state_of n = (if InCS n then HELD else if WantCS n then WANTED else RELEASED)"

section \<open>The Lamport clock\<close>

text \<open>
  \<open>UpdateLamportClock\<close> and \<open>GetLamportClock\<close> write the clock and return what it
  then holds: the model returns the value and the node.
\<close>

definition UpdateLamportClock :: "Node \<Rightarrow> uint64 \<Rightarrow> uint64 \<times> Node" where
  "UpdateLamportClock n msgTimestamp =
     (let n1 = (if msgTimestamp > LamportClock n
                then n\<lparr>LamportClock := msgTimestamp\<rparr> else n);
          n2 = n1\<lparr>LamportClock := LamportClock n1 + 1\<rparr>
      in (LamportClock n2, n2))"

definition GetLamportClock :: "Node \<Rightarrow> uint64 \<times> Node" where
  "GetLamportClock n =
     (let n1 = n\<lparr>LamportClock := LamportClock n + 1\<rparr>
      in (LamportClock n1, n1))"

section \<open>The priority of requests\<close>

definition isHigherPriority :: "AccessRequest option \<Rightarrow> AccessRequest option \<Rightarrow> bool" where
  "isHigherPriority req1 req2 =
     (case (req1, req2) of
        (Some r1, Some r2) \<Rightarrow>
          if LamportTimestamp r1 = LamportTimestamp r2
          then NodeId r1 < NodeId r2
          else LamportTimestamp r1 < LamportTimestamp r2
      | _ \<Rightarrow> False)"

section \<open>The transport and what a call can do\<close>

text \<open>
  A gRPC call made with \<open>context.Background()\<close> returns a response, returns an error,
  or never returns (the peer's handler may itself wait for ever). The network is a
  parameter of the model: what each peer answers to \<open>RequestAccess\<close> and to
  \<open>ReleaseAccess\<close>, and, for the goroutine that waits on the \<open>Release\<close> channel after
  its request to a peer, the inbound \<open>ReleaseAccess\<close> call that wakes it, if one comes.
\<close>

datatype 'a rpc = Reply 'a | TransportError | Hangs

record network =
  request_rpc :: "client \<Rightarrow> AccessRequest option \<Rightarrow> AccessResponse rpc"
  release_rpc :: "client \<Rightarrow> ReleaseRequest \<Rightarrow> ReleaseResponse rpc"
  inbound_release :: "string \<Rightarrow> ReleaseRequest option"

text \<open>
  What the node does to the outside: the calls it issues, by peer identity, the error it
  logs when a release call fails, and entering and leaving the critical section.
\<close>

datatype event =
    RequestSent string "AccessRequest option"
  | ReleaseSent string ReleaseRequest
  | ReleaseError string
  | EnterCS
  | LeaveCS

text \<open>
  An operation returns, panics (a method called on the nil client that a missing key of
  \<open>Peers\<close> gives), or blocks for ever.
\<close>

datatype panic = NilClient string

datatype 'a outcome = Returns 'a | Panics panic | Blocks

definition after_events :: "event list \<Rightarrow> (Node \<times> event list) outcome \<Rightarrow> (Node \<times> event list) outcome" where
  "after_events evs oc =
     (case oc of
        Returns (n, evs') \<Rightarrow> Returns (n, evs @ evs')
      | Panics p \<Rightarrow> Panics p
      | Blocks \<Rightarrow> Blocks)"

definition ConnectToPeer :: "(string \<Rightarrow> client option) \<Rightarrow> Node \<Rightarrow> string \<Rightarrow> string \<Rightarrow> string + Node" where
  "ConnectToPeer NewClient n peerID peerAddr =
     (case NewClient peerAddr of
        None \<Rightarrow> Inl (''failed to connect to peer '' @ peerID)
      | Some c \<Rightarrow> Inr (n\<lparr>Peers := AList.update peerID c (Peers n)\<rparr>))"

section \<open>Sending a release\<close>

text \<open>
  \<open>SendReleaseMSG\<close> reads \<open>n.ID\<close> and writes nothing of the node: it drops the response
  with \<open>_\<close>, and an error is only logged.
\<close>

definition SendReleaseMSG :: "network \<Rightarrow> Node \<Rightarrow> string \<Rightarrow> client option \<Rightarrow> uint64 \<Rightarrow> event list outcome" where
  "SendReleaseMSG net n peerID cl releaseTimestamp =
     (case cl of
        None \<Rightarrow> Panics (NilClient peerID)
      | Some c \<Rightarrow>
          (let msg = \<lparr>rel_NodeId = ID n, rel_LamportTimestamp = releaseTimestamp\<rparr>
           in case release_rpc net c msg of
                Hangs \<Rightarrow> Blocks
              | TransportError \<Rightarrow> Returns [ReleaseSent peerID msg, ReleaseError peerID]
              | Reply _ \<Rightarrow> Returns [ReleaseSent peerID msg]))"

section \<open>The server handlers\<close>

text \<open>
  \<open>RequestAccess\<close>: the deferred call of \<open>SendReleaseMSG\<close> has its arguments evaluated at
  the \<open>defer\<close> statement and runs when the handler returns; a panic there is the
  handler's panic.
\<close>

definition RequestAccess :: "network \<Rightarrow> Node \<Rightarrow> AccessRequest \<Rightarrow> (AccessResponse \<times> Node \<times> event list) outcome" where
  "RequestAccess net n req =
     (case UpdateLamportClock n (LamportTimestamp req) of
        (timestamp, n1) \<Rightarrow>
          if InCS n1 \<or> (WantCS n1 \<and> isHigherPriority (CurrentRequest n1) (Some req))
          then Returns (\<lparr>Granted = False, resp_LamportTimestamp = timestamp\<rparr>,
                        n1\<lparr>DeferredResponses := DeferredResponses n1 @ [NodeId req]\<rparr>, [])
          else (case SendReleaseMSG net n1 (NodeId req) (map_of (Peers n1) (NodeId req)) timestamp of
                  Returns evs \<Rightarrow>
                    Returns (\<lparr>Granted = False, resp_LamportTimestamp = timestamp\<rparr>, n1, evs)
                | Panics p \<Rightarrow> Panics p
                | Blocks \<Rightarrow> Blocks))"

text \<open>
  \<open>ReleaseAccess\<close>: the send on \<open>Release\<close> waits while the buffer is full; with nobody
  receiving, for ever.
\<close>

definition ReleaseAccess :: "Node \<Rightarrow> ReleaseRequest \<Rightarrow> (ReleaseResponse \<times> Node) outcome" where
  "ReleaseAccess n req =
     (case UpdateLamportClock n (rel_LamportTimestamp req) of
        (timestamp, n1) \<Rightarrow>
          if length (Release n1) < Release_cap
          then Returns (\<lparr>Acknowledged = True, ack_LamportTimestamp = timestamp\<rparr>,
                        n1\<lparr>Release := Release n1 @ [True]\<rparr>)
          else Blocks)"

section \<open>Leaving the critical section\<close>

text \<open>The loop of \<open>ExecuteCriticalSection\<close> that empties the list from the front.\<close>

function flush_deferred :: "network \<Rightarrow> Node \<Rightarrow> uint64 \<Rightarrow> (Node \<times> event list) outcome" where
  "flush_deferred net n releaseTimestamp =
     (case DeferredResponses n of
        [] \<Rightarrow> Returns (n, [])
      | peerID # rest \<Rightarrow>
          (case SendReleaseMSG net n peerID (map_of (Peers n) peerID) releaseTimestamp of
             Returns evs \<Rightarrow>
               after_events evs (flush_deferred net (n\<lparr>DeferredResponses := rest\<rparr>) releaseTimestamp)
           | Panics p \<Rightarrow> Panics p
           | Blocks \<Rightarrow> Blocks))"
  by pat_completeness auto
termination
  by (relation "measure (\<lambda>(net, n, ts). length (DeferredResponses n))") auto

declare flush_deferred.simps [simp del]

text \<open>
  \<open>ExecuteCriticalSection\<close> in its two halves: line 143, and lines 147 to 163 after
  the sleep. The requests that the server handles while the node sleeps are calls of
  \<open>RequestAccess\<close> on the node between the two.
\<close>

definition enter_CS :: "Node \<Rightarrow> Node" where
  "enter_CS n = n\<lparr>InCS := True\<rparr>"

definition leave_CS :: "network \<Rightarrow> Node \<Rightarrow> (Node \<times> event list) outcome" where
  "leave_CS net n =
     (let n1 = n\<lparr>InCS := False\<rparr>;
          n2 = n1\<lparr>WantCS := False\<rparr>
      in case GetLamportClock n2 of
           (releaseTimestamp, n3) \<Rightarrow> after_events [LeaveCS] (flush_deferred net n3 releaseTimestamp))"

definition ExecuteCriticalSection :: "network \<Rightarrow> Node \<Rightarrow> (Node \<times> event list) outcome" where
  "ExecuteCriticalSection net n = after_events [EnterCS] (leave_CS net (enter_CS n))"

section \<open>Requesting the critical section\<close>

text \<open>Lines 95 to 101: the node becomes WANTED and stamps its request.\<close>

definition stamp_request :: "Node \<Rightarrow> Node" where
  "stamp_request n =
     (let n1 = n\<lparr>WantCS := True\<rparr>
      in case GetLamportClock n1 of
           (timestamp, n2) \<Rightarrow>
             (let n3 = n2\<lparr>CurrentRequest := Some \<lparr>NodeId = ID n2, LamportTimestamp = timestamp\<rparr>\<rparr>
              in n3\<lparr>ResponseCount := 0\<rparr>))"

text \<open>
  The receive \<open><-n.Release\<close> of a goroutine: a buffered value if there is one, else the
  value that the inbound \<open>ReleaseAccess\<close> puts there, else nothing, for ever.
\<close>

definition recv_Release :: "network \<Rightarrow> string \<Rightarrow> Node \<Rightarrow> (bool \<times> Node) option" where
  "recv_Release net peerID n =
     (case Release n of
        v # vs \<Rightarrow> Some (v, n\<lparr>Release := vs\<rparr>)
      | [] \<Rightarrow>
          (case inbound_release net peerID of
             None \<Rightarrow> None
           | Some rel \<Rightarrow>
               (case ReleaseAccess n rel of
                  Returns (_, n1) \<Rightarrow>
                    (case Release n1 of
                       v # vs \<Rightarrow> Some (v, n1\<lparr>Release := vs\<rparr>)
                     | [] \<Rightarrow> None)
                | _ \<Rightarrow> None)))"

text \<open>
  The goroutine of one peer (lines 109 to 122): the node after it, the value it sends on
  \<open>responses\<close> (none if it never gets there), and the call it made.
\<close>

definition request_worker :: "network \<Rightarrow> Node \<Rightarrow> string \<times> client \<Rightarrow> Node \<times> bool option \<times> event list" where
  "request_worker net n p =
     (case p of
        (peerID, c) \<Rightarrow>
          (case request_rpc net c (CurrentRequest n) of
             Hangs \<Rightarrow> (n, None, [RequestSent peerID (CurrentRequest n)])
           | TransportError \<Rightarrow> (n, Some False, [RequestSent peerID (CurrentRequest n)])
           | Reply resp \<Rightarrow>
               (case UpdateLamportClock n (resp_LamportTimestamp resp) of
                  (_, n1) \<Rightarrow>
                    (case recv_Release net peerID n1 of
                       None \<Rightarrow> (n1, None, [RequestSent peerID (CurrentRequest n)])
                     | Some (v, n2) \<Rightarrow> (n2, Some v, [RequestSent peerID (CurrentRequest n)])))))"

text \<open>
  The goroutines of all peers, one after the other in the order of the list: the node,
  the values sent on \<open>responses\<close>, and the calls made.
\<close>

fun request_all :: "network \<Rightarrow> Node \<Rightarrow> (string \<times> client) list \<Rightarrow> Node \<times> bool list \<times> event list" where
  "request_all net n [] = (n, [], [])"
| "request_all net n (p # ps) =
     (case request_worker net n p of
        (n1, sent, evs) \<Rightarrow>
          (case request_all net n1 ps of
             (n2, responses, evs') \<Rightarrow>
               (n2, (case sent of None \<Rightarrow> [] | Some v \<Rightarrow> [v]) @ responses, evs @ evs')))"

text \<open>
  The loop of lines 130 to 134: \<open>needed\<close> receives on \<open>responses\<close>, counting the true
  ones. A receive with nothing left to come blocks for ever.
\<close>

fun wait_responses :: "nat \<Rightarrow> bool list \<Rightarrow> nat \<Rightarrow> nat option" where
  "wait_responses 0 responses granted = Some granted"
| "wait_responses (Suc k) [] granted = None"
| "wait_responses (Suc k) (v # responses) granted =
     wait_responses k responses (if v then granted + 1 else granted)"

definition RequestCriticalSection :: "network \<Rightarrow> Node \<Rightarrow> (Node \<times> event list) outcome" where
  "RequestCriticalSection net n =
     (if InCS n \<or> WantCS n then Returns (n, [])
      else (let n1 = stamp_request n
            in case request_all net n1 (Peers n1) of
                 (n2, responses, evs) \<Rightarrow>
                   (let needed = length (Peers n2)
                    in case wait_responses needed responses 0 of
                         None \<Rightarrow> Blocks
                       | Some granted \<Rightarrow> after_events evs (ExecuteCriticalSection net n2))))"

section \<open>Observing a run\<close>

text \<open>The release calls among the events, in the order they were made.\<close>

definition releases :: "event list \<Rightarrow> (string \<times> ReleaseRequest) list" where
  "releases evs = concat (map (\<lambda>e. case e of ReleaseSent p m \<Rightarrow> [(p, m)] | _ \<Rightarrow> []) evs)"

text \<open>
  The server handling a sequence of inbound requests, one call of \<open>RequestAccess\<close> after
  the other (the handler holds \<open>ReqMu\<close> for its whole body).
\<close>

fun serve_requests :: "network \<Rightarrow> Node \<Rightarrow> AccessRequest list \<Rightarrow> (Node \<times> event list) outcome" where
  "serve_requests net n [] = Returns (n, [])"
| "serve_requests net n (req # reqs) =
     (case RequestAccess net n req of
        Returns (resp, n1, evs) \<Rightarrow> after_events evs (serve_requests net n1 reqs)
      | Panics p \<Rightarrow> Panics p
      | Blocks \<Rightarrow> Blocks)"

text \<open>
  Two nodes that differ at most in the clock and in what the \<open>Release\<close> channel holds:
  what the goroutines of an acquisition leave of the node they started from.
\<close>

definition same_protocol_state :: "Node \<Rightarrow> Node \<Rightarrow> bool" where
  "same_protocol_state n n' \<longleftrightarrow> n' = n\<lparr>LamportClock := LamportClock n', Release := Release n'\<rparr>"

section \<open>Nodes and networks used as concrete inputs\<close>

text \<open>
  Node \<open>node1\<close> of the README's three-node setup, connected to \<open>node2\<close> and \<open>node3\<close>.
\<close>

definition node1 :: Node where
  "node1 =
     (NewNode ''node1'' ''localhost:5001'')
       \<lparr>Peers := [(''node2'', ''localhost:5002''), (''node3'', ''localhost:5003'')]\<rparr>"

text \<open>
  A network on which every call is answered: a peer answers a request with timestamp
  100 and a release with timestamp 100, and the release that a waiting goroutine needs
  comes in with timestamp 2.
\<close>

definition answering_net :: network where
  "answering_net =
     \<lparr>request_rpc = (\<lambda>c r. Reply \<lparr>Granted = False, resp_LamportTimestamp = 100\<rparr>),
      release_rpc = (\<lambda>c r. Reply \<lparr>Acknowledged = True, ack_LamportTimestamp = 100\<rparr>),
      inbound_release = (\<lambda>p. Some \<lparr>rel_NodeId = p, rel_LamportTimestamp = 2\<rparr>)\<rparr>"

text \<open>A network on which every call fails with a transport error, and no release comes in.\<close>

definition failing_net :: network where
  "failing_net =
     \<lparr>request_rpc = (\<lambda>c r. TransportError),
      release_rpc = (\<lambda>c r. TransportError),
      inbound_release = (\<lambda>p. None)\<rparr>"

text \<open>
  \<open>node1\<close> with clock 4 after it has stamped a request: WANTED, with the request
  \<open>(ts = 5, id = node1)\<close> of the specification's example.
\<close>

definition node1_wanted :: Node where
  "node1_wanted = stamp_request (node1\<lparr>LamportClock := 4\<rparr>)"

text \<open>
  \<open>node1_wanted\<close> inside its critical section, with \<open>node2\<close> and \<open>node3\<close> deferred: the
  specification's example of a release.
\<close>

definition node1_held :: Node where
  "node1_held = (enter_CS node1_wanted)\<lparr>DeferredResponses := [''node2'', ''node3'']\<rparr>"

section \<open>The clock: tick and merge\<close>

lemma unat_succ_uint64: "unat ((c::uint64) + 1) = (unat c + 1) mod 2 ^ 64"
  by (simp add: unat_word_ariths)

lemma unat_max_uint64: "unat (max (c::uint64) m) = max (unat c) (unat m)"
  by (simp add: max_def word_le_nat_alt)

lemma GetLamportClock_eq:
  "GetLamportClock n = (LamportClock n + 1, n\<lparr>LamportClock := LamportClock n + 1\<rparr>)"
  by (simp add: GetLamportClock_def)

lemma UpdateLamportClock_eq:
  "UpdateLamportClock n m =
     (max (LamportClock n) m + 1, n\<lparr>LamportClock := max (LamportClock n) m + 1\<rparr>)"
  by (auto simp: UpdateLamportClock_def Let_def max_def)

text \<open>
  C8, as the code has it. The clock is a \<open>uint64\<close>: the tick sets it to \<open>c + 1\<close> modulo
  \<open>2 ^ 64\<close> and returns that, the merge sets it to \<open>max c m + 1\<close> modulo \<open>2 ^ 64\<close> and
  returns that. Where the value before the increment is below \<open>2 ^ 64 - 1\<close> the clock
  grows strictly (and ends above the received timestamp); at \<open>2 ^ 64 - 1\<close> it wraps
  to 0.
\<close>

theorem clock_tick_merge:
  "GetLamportClock n = (LamportClock n + 1, n\<lparr>LamportClock := LamportClock n + 1\<rparr>)
   \<and> UpdateLamportClock n m =
       (max (LamportClock n) m + 1, n\<lparr>LamportClock := max (LamportClock n) m + 1\<rparr>)
   \<and> unat (fst (GetLamportClock n)) = (unat (LamportClock n) + 1) mod 2 ^ 64
   \<and> unat (fst (UpdateLamportClock n m)) = (max (unat (LamportClock n)) (unat m) + 1) mod 2 ^ 64
   \<and> (unat (LamportClock n) < 2 ^ 64 - 1 \<longrightarrow>
        LamportClock n < LamportClock (snd (GetLamportClock n)))
   \<and> (max (unat (LamportClock n)) (unat m) < 2 ^ 64 - 1 \<longrightarrow>
        LamportClock n < LamportClock (snd (UpdateLamportClock n m))
        \<and> m < LamportClock (snd (UpdateLamportClock n m)))"
proof -
  have tick: "unat (fst (GetLamportClock n)) = (unat (LamportClock n) + 1) mod 2 ^ 64"
    by (simp add: GetLamportClock_eq unat_succ_uint64)
  have merge: "unat (fst (UpdateLamportClock n m)) = (max (unat (LamportClock n)) (unat m) + 1) mod 2 ^ 64"
    by (simp add: UpdateLamportClock_eq unat_succ_uint64 unat_max_uint64)
  have grow_tick: "LamportClock n < LamportClock (snd (GetLamportClock n))"
    if "unat (LamportClock n) < 2 ^ 64 - 1"
    using that by (simp add: GetLamportClock_eq word_less_nat_alt unat_succ_uint64)
  have grow_merge: "LamportClock n < LamportClock (snd (UpdateLamportClock n m))
      \<and> m < LamportClock (snd (UpdateLamportClock n m))"
    if "max (unat (LamportClock n)) (unat m) < 2 ^ 64 - 1"
    using that
    by (auto simp: UpdateLamportClock_eq word_less_nat_alt unat_succ_uint64 unat_max_uint64)
  from tick merge grow_tick grow_merge show ?thesis
    by (simp only: GetLamportClock_eq UpdateLamportClock_eq simp_thms) simp
qed

theorem clock_tick_merge_witness:
  "unat (LamportClock node1) < 2 ^ 64 - 1
   \<and> max (unat (LamportClock node1)) (unat (7::uint64)) < 2 ^ 64 - 1
   \<and> LamportClock node1 < LamportClock (snd (GetLamportClock node1))
   \<and> LamportClock node1 < LamportClock (snd (UpdateLamportClock node1 7))
   \<and> fst (GetLamportClock node1) = 1
   \<and> fst (UpdateLamportClock node1 7) = 8"
  using clock_tick_merge [of node1 7] by (simp add: node1_def NewNode_def)

text \<open>
  C8 as stated fails where the increment wraps: a node whose clock is 5 receives the
  timestamp \<open>2 ^ 64 - 1\<close>, and its clock is 0 afterwards.
\<close>

theorem clock_merge_wraps:
  "LamportClock (snd (UpdateLamportClock (node1\<lparr>LamportClock := 5\<rparr>) 18446744073709551615)) = 0
   \<and> LamportClock (snd (UpdateLamportClock (node1\<lparr>LamportClock := 5\<rparr>) 18446744073709551615))
       < LamportClock (node1\<lparr>LamportClock := 5\<rparr>)"
  by (simp add: UpdateLamportClock_eq)

section \<open>The priority order\<close>

lemma isHigherPriority_None [simp]:
  "isHigherPriority None r = False" "isHigherPriority r None = False"
  by (auto simp: isHigherPriority_def split: option.splits)

lemma isHigherPriority_Some:
  "isHigherPriority (Some r1) (Some r2) =
     (if LamportTimestamp r1 = LamportTimestamp r2 then NodeId r1 < NodeId r2
      else LamportTimestamp r1 < LamportTimestamp r2)"
  by (simp add: isHigherPriority_def)

text \<open>
  C7. On requests that differ in their (timestamp, identity) pair exactly one of
  \<open>isHigherPriority r1 r2\<close> and \<open>isHigherPriority r2 r1\<close> holds; no request is ahead of
  itself; the relation is transitive; the lower timestamp wins, and on equal timestamps
  the lower identity.
\<close>

theorem isHigherPriority_strict_total_order:
  "((LamportTimestamp r1, NodeId r1) \<noteq> (LamportTimestamp r2, NodeId r2) \<longrightarrow>
      isHigherPriority (Some r1) (Some r2) \<noteq> isHigherPriority (Some r2) (Some r1))
   \<and> \<not> isHigherPriority (Some r1) (Some r1)
   \<and> (isHigherPriority (Some r1) (Some r2) \<and> isHigherPriority (Some r2) (Some r3) \<longrightarrow>
        isHigherPriority (Some r1) (Some r3))
   \<and> (LamportTimestamp r1 < LamportTimestamp r2 \<longrightarrow> isHigherPriority (Some r1) (Some r2))
   \<and> (LamportTimestamp r1 = LamportTimestamp r2 \<and> NodeId r1 < NodeId r2 \<longrightarrow>
        isHigherPriority (Some r1) (Some r2))"
proof (intro conjI impI)
  assume distinct: "(LamportTimestamp r1, NodeId r1) \<noteq> (LamportTimestamp r2, NodeId r2)"
  show "isHigherPriority (Some r1) (Some r2) \<noteq> isHigherPriority (Some r2) (Some r1)"
  proof (cases "LamportTimestamp r1 = LamportTimestamp r2")
    case True
    with distinct have "NodeId r1 \<noteq> NodeId r2" by simp
    then have "NodeId r1 < NodeId r2 \<longleftrightarrow> \<not> NodeId r2 < NodeId r1" by auto
    with True show ?thesis by (simp add: isHigherPriority_Some)
  next
    case False
    then have "LamportTimestamp r1 < LamportTimestamp r2 \<longleftrightarrow> \<not> LamportTimestamp r2 < LamportTimestamp r1"
      by auto
    with False show ?thesis by (simp add: isHigherPriority_Some)
  qed
next
  show "\<not> isHigherPriority (Some r1) (Some r1)" by (simp add: isHigherPriority_Some)
next
  assume "isHigherPriority (Some r1) (Some r2) \<and> isHigherPriority (Some r2) (Some r3)"
  then have le: "LamportTimestamp r1 \<le> LamportTimestamp r2" "LamportTimestamp r2 \<le> LamportTimestamp r3"
    and ids: "LamportTimestamp r1 = LamportTimestamp r2 \<Longrightarrow> NodeId r1 < NodeId r2"
      "LamportTimestamp r2 = LamportTimestamp r3 \<Longrightarrow> NodeId r2 < NodeId r3"
    by (auto simp: isHigherPriority_Some split: if_splits)
  show "isHigherPriority (Some r1) (Some r3)"
  proof (cases "LamportTimestamp r1 = LamportTimestamp r3")
    case True
    with le have "LamportTimestamp r1 = LamportTimestamp r2" "LamportTimestamp r2 = LamportTimestamp r3"
      by auto
    with ids have "NodeId r1 < NodeId r3" by (meson less_trans)
    with True show ?thesis by (simp add: isHigherPriority_Some)
  next
    case False
    with le have "LamportTimestamp r1 < LamportTimestamp r3" by auto
    with False show ?thesis by (simp add: isHigherPriority_Some)
  qed
next
  assume "LamportTimestamp r1 < LamportTimestamp r2"
  then show "isHigherPriority (Some r1) (Some r2)" by (auto simp: isHigherPriority_Some)
next
  assume "LamportTimestamp r1 = LamportTimestamp r2 \<and> NodeId r1 < NodeId r2"
  then show "isHigherPriority (Some r1) (Some r2)" by (simp add: isHigherPriority_Some)
qed

theorem isHigherPriority_strict_total_order_witness:
  "(LamportTimestamp \<lparr>NodeId = ''node1'', LamportTimestamp = 5\<rparr>, NodeId \<lparr>NodeId = ''node1'', LamportTimestamp = 5\<rparr>)
     \<noteq> (LamportTimestamp \<lparr>NodeId = ''node2'', LamportTimestamp = 5\<rparr>, NodeId \<lparr>NodeId = ''node2'', LamportTimestamp = 5\<rparr>)
   \<and> isHigherPriority (Some \<lparr>NodeId = ''node1'', LamportTimestamp = 5\<rparr>) (Some \<lparr>NodeId = ''node2'', LamportTimestamp = 5\<rparr>)
   \<and> \<not> isHigherPriority (Some \<lparr>NodeId = ''node2'', LamportTimestamp = 5\<rparr>) (Some \<lparr>NodeId = ''node1'', LamportTimestamp = 5\<rparr>)
   \<and> isHigherPriority (Some \<lparr>NodeId = ''node2'', LamportTimestamp = 5\<rparr>) (Some \<lparr>NodeId = ''node0'', LamportTimestamp = 7\<rparr>)
   \<and> isHigherPriority (Some \<lparr>NodeId = ''node1'', LamportTimestamp = 5\<rparr>) (Some \<lparr>NodeId = ''node0'', LamportTimestamp = 7\<rparr>)"
  using isHigherPriority_strict_total_order
    [of "\<lparr>NodeId = ''node1'', LamportTimestamp = 5\<rparr>" "\<lparr>NodeId = ''node2'', LamportTimestamp = 5\<rparr>"
        "\<lparr>NodeId = ''node0'', LamportTimestamp = 7\<rparr>"]
  by (simp add: isHigherPriority_Some)

section \<open>The request handler\<close>

lemma RequestAccess_deferred:
  assumes "InCS n \<or> (WantCS n \<and> isHigherPriority (CurrentRequest n) (Some req))"
  shows "RequestAccess net n req =
     Returns (\<lparr>Granted = False, resp_LamportTimestamp = max (LamportClock n) (LamportTimestamp req) + 1\<rparr>,
              n\<lparr>LamportClock := max (LamportClock n) (LamportTimestamp req) + 1,
                DeferredResponses := DeferredResponses n @ [NodeId req]\<rparr>, [])"
  using assms by (auto simp: RequestAccess_def UpdateLamportClock_eq)

lemma RequestAccess_not_deferred:
  assumes "\<not> (InCS n \<or> (WantCS n \<and> isHigherPriority (CurrentRequest n) (Some req)))"
  shows "RequestAccess net n req =
     (case SendReleaseMSG net (n\<lparr>LamportClock := max (LamportClock n) (LamportTimestamp req) + 1\<rparr>)
             (NodeId req) (map_of (Peers n) (NodeId req))
             (max (LamportClock n) (LamportTimestamp req) + 1) of
        Returns evs \<Rightarrow>
          Returns (\<lparr>Granted = False, resp_LamportTimestamp = max (LamportClock n) (LamportTimestamp req) + 1\<rparr>,
                   n\<lparr>LamportClock := max (LamportClock n) (LamportTimestamp req) + 1\<rparr>, evs)
      | Panics p \<Rightarrow> Panics p
      | Blocks \<Rightarrow> Blocks)"
  using assms by (auto simp: RequestAccess_def UpdateLamportClock_eq)

lemma SendReleaseMSG_Returns:
  "SendReleaseMSG net n peerID cl ts = Returns evs \<Longrightarrow>
     releases evs = [(peerID, \<lparr>rel_NodeId = ID n, rel_LamportTimestamp = ts\<rparr>)]"
  by (auto simp: SendReleaseMSG_def releases_def Let_def split: option.splits rpc.splits)

lemma SendReleaseMSG_known:
  assumes "release_rpc net c \<lparr>rel_NodeId = ID n, rel_LamportTimestamp = ts\<rparr> \<noteq> Hangs"
  shows "\<exists>evs. SendReleaseMSG net n peerID (Some c) ts = Returns evs"
  using assms by (auto simp: SendReleaseMSG_def Let_def split: rpc.splits)

lemma RequestAccess_Returns_fields:
  assumes "RequestAccess net n req = Returns (resp, n1, evs)"
  shows "InCS n1 = InCS n \<and> WantCS n1 = WantCS n \<and> CurrentRequest n1 = CurrentRequest n
    \<and> DeferredResponses n1 = DeferredResponses n @
        (if InCS n \<or> (WantCS n \<and> isHigherPriority (CurrentRequest n) (Some req))
         then [NodeId req] else [])"
proof (cases "InCS n \<or> (WantCS n \<and> isHigherPriority (CurrentRequest n) (Some req))")
  case True
  with assms show ?thesis by (auto simp: RequestAccess_deferred)
next
  case False
  from assms show ?thesis
    unfolding RequestAccess_not_deferred [OF False] using False
    by (auto split: outcome.splits)
qed

lemma after_events_Returns:
  "after_events evs oc = Returns (n', evs'') \<longleftrightarrow> (\<exists>evs'. oc = Returns (n', evs') \<and> evs'' = evs @ evs')"
  by (auto simp: after_events_def split: outcome.splits)

lemma node1_connected:
  "ConnectToPeer Some (NewNode ''node1'' ''localhost:5001'') ''node2'' ''localhost:5002''
     = Inr ((NewNode ''node1'' ''localhost:5001'')\<lparr>Peers := [(''node2'', ''localhost:5002'')]\<rparr>)"
  "ConnectToPeer Some ((NewNode ''node1'' ''localhost:5001'')\<lparr>Peers := [(''node2'', ''localhost:5002'')]\<rparr>)
       ''node3'' ''localhost:5003''
     = Inr node1"
  by (simp_all add: ConnectToPeer_def NewNode_def node1_def)

lemma node1_wanted_eq:
  "node1_wanted = node1\<lparr>LamportClock := 5, WantCS := True,
      CurrentRequest := Some \<lparr>NodeId = ''node1'', LamportTimestamp = 5\<rparr>\<rparr>"
  by (simp add: node1_wanted_def stamp_request_def GetLamportClock_eq node1_def NewNode_def)

text \<open>
  C1 as stated fails: \<open>node1\<close>, WANTED with the request \<open>(5, node1)\<close>, receives
  \<open>(3, node2)\<close>. It does not defer, and its response has \<open>granted = false\<close>; what it
  sends to \<open>node2\<close> is a release call.
\<close>

theorem RequestAccess_answers_not_granted:
  "\<not> InCS node1_wanted
   \<and> \<not> isHigherPriority (CurrentRequest node1_wanted) (Some \<lparr>NodeId = ''node2'', LamportTimestamp = 3\<rparr>)
   \<and> RequestAccess answering_net node1_wanted \<lparr>NodeId = ''node2'', LamportTimestamp = 3\<rparr>
       = Returns (\<lparr>Granted = False, resp_LamportTimestamp = 6\<rparr>,
                  node1_wanted\<lparr>LamportClock := 6\<rparr>,
                  [ReleaseSent ''node2'' \<lparr>rel_NodeId = ''node1'', rel_LamportTimestamp = 6\<rparr>])"
  by (simp add: node1_wanted_eq node1_def NewNode_def isHigherPriority_Some RequestAccess_def
      UpdateLamportClock_eq SendReleaseMSG_def answering_net_def)

text \<open>
  C1, as the code has it. A request that the node does not defer, from a requester that
  is one of its peers and whose release call returns, is answered with
  \<open>granted = false\<close> and the merged timestamp, the node changing in its clock only; the
  grant is the one \<open>ReleaseAccess\<close> call that the handler makes to the requester, with
  the merged timestamp, before its response goes out.
\<close>

theorem RequestAccess_grants_by_release:
  assumes "\<not> InCS n"
    and "\<not> (WantCS n \<and> isHigherPriority (CurrentRequest n) (Some req))"
    and "map_of (Peers n) (NodeId req) = Some c"
    and "release_rpc net c \<lparr>rel_NodeId = ID n,
           rel_LamportTimestamp = max (LamportClock n) (LamportTimestamp req) + 1\<rparr> \<noteq> Hangs"
  shows "\<exists>evs. RequestAccess net n req =
           Returns (\<lparr>Granted = False,
                      resp_LamportTimestamp = max (LamportClock n) (LamportTimestamp req) + 1\<rparr>,
                    n\<lparr>LamportClock := max (LamportClock n) (LamportTimestamp req) + 1\<rparr>, evs)
         \<and> releases evs =
             [(NodeId req, \<lparr>rel_NodeId = ID n,
                 rel_LamportTimestamp = max (LamportClock n) (LamportTimestamp req) + 1\<rparr>)]"
proof -
  let ?t = "max (LamportClock n) (LamportTimestamp req) + 1"
  let ?n = "n\<lparr>LamportClock := ?t\<rparr>"
  from assms(4) obtain evs where
    sent: "SendReleaseMSG net ?n (NodeId req) (Some c) ?t = Returns evs"
    using SendReleaseMSG_known [of net c ?n ?t "NodeId req"] by auto
  from SendReleaseMSG_Returns [OF sent]
  have "releases evs = [(NodeId req, \<lparr>rel_NodeId = ID n, rel_LamportTimestamp = ?t\<rparr>)]"
    by simp
  moreover have "RequestAccess net n req =
      Returns (\<lparr>Granted = False, resp_LamportTimestamp = ?t\<rparr>, ?n, evs)"
    using assms(1,2) sent by (simp add: RequestAccess_not_deferred assms(3))
  ultimately show ?thesis by blast
qed

theorem RequestAccess_grants_by_release_witness:
  "\<not> InCS node1
   \<and> \<not> (WantCS node1 \<and> isHigherPriority (CurrentRequest node1) (Some \<lparr>NodeId = ''node3'', LamportTimestamp = 1\<rparr>))
   \<and> map_of (Peers node1) ''node3'' = Some ''localhost:5003''
   \<and> release_rpc answering_net ''localhost:5003'' \<lparr>rel_NodeId = ''node1'', rel_LamportTimestamp = 2\<rparr> \<noteq> Hangs
   \<and> (\<exists>evs. RequestAccess answering_net node1 \<lparr>NodeId = ''node3'', LamportTimestamp = 1\<rparr> =
           Returns (\<lparr>Granted = False, resp_LamportTimestamp = 2\<rparr>, node1\<lparr>LamportClock := 2\<rparr>, evs)
         \<and> releases evs = [(''node3'', \<lparr>rel_NodeId = ''node1'', rel_LamportTimestamp = 2\<rparr>)])"
  using RequestAccess_grants_by_release
    [of node1 "\<lparr>NodeId = ''node3'', LamportTimestamp = 1\<rparr>" "''localhost:5003''" answering_net]
  by (simp add: node1_def NewNode_def answering_net_def)

text \<open>
  C6 as stated fails in its half on the response: \<open>node1\<close>, RELEASED, receives
  \<open>(1, node3)\<close>. Neither condition of deferral holds and nothing is put in the deferred
  list, yet the response has \<open>granted = false\<close>.
\<close>

theorem answers_false_without_deferring:
  "state_of node1 = RELEASED
   \<and> RequestAccess answering_net node1 \<lparr>NodeId = ''node3'', LamportTimestamp = 1\<rparr>
       = Returns (\<lparr>Granted = False, resp_LamportTimestamp = 2\<rparr>,
                  node1\<lparr>LamportClock := 2\<rparr>,
                  [ReleaseSent ''node3'' \<lparr>rel_NodeId = ''node1'', rel_LamportTimestamp = 2\<rparr>])
   \<and> \<not> Granted \<lparr>Granted = False, resp_LamportTimestamp = 2\<rparr>
   \<and> DeferredResponses (node1\<lparr>LamportClock := 2\<rparr>) = []"
  by (simp add: state_of_def node1_def NewNode_def RequestAccess_def UpdateLamportClock_eq
      SendReleaseMSG_def answering_net_def)

text \<open>
  C6, as the code has it. The handler appends the requester to the deferred list (and
  responds \<open>granted = false\<close>) if and only if the node is HELD, or WANTED with its own
  request ahead of the inbound one: a condition on the state, the current request and
  the inbound request alone. Whenever it responds, the response has \<open>granted = false\<close>;
  where the condition holds the list has the requester appended and no release call is
  made, and where it does not hold the list is as before and the one release call goes
  to the requester, with the merged timestamp. A handler that panics or blocks does so
  only where the condition does not hold.
\<close>

theorem RequestAccess_inserts_iff:
  "((case RequestAccess net n req of
       Returns (resp, n', evs) \<Rightarrow>
         DeferredResponses n' = DeferredResponses n @ [NodeId req] \<and> \<not> Granted resp
     | Panics p \<Rightarrow> False
     | Blocks \<Rightarrow> False)
    = (state_of n = HELD \<or> (state_of n = WANTED \<and> isHigherPriority (CurrentRequest n) (Some req))))
   \<and> (case RequestAccess net n req of
         Returns (resp, n', evs) \<Rightarrow>
           \<not> Granted resp
           \<and> DeferredResponses n' =
               (if state_of n = HELD \<or> (state_of n = WANTED \<and> isHigherPriority (CurrentRequest n) (Some req))
                then DeferredResponses n @ [NodeId req] else DeferredResponses n)
           \<and> releases evs =
               (if state_of n = HELD \<or> (state_of n = WANTED \<and> isHigherPriority (CurrentRequest n) (Some req))
                then []
                else [(NodeId req, \<lparr>rel_NodeId = ID n,
                        rel_LamportTimestamp = max (LamportClock n) (LamportTimestamp req) + 1\<rparr>)])
       | Panics p \<Rightarrow>
           \<not> (state_of n = HELD \<or> (state_of n = WANTED \<and> isHigherPriority (CurrentRequest n) (Some req)))
       | Blocks \<Rightarrow>
           \<not> (state_of n = HELD \<or> (state_of n = WANTED \<and> isHigherPriority (CurrentRequest n) (Some req))))"
proof (cases "InCS n \<or> (WantCS n \<and> isHigherPriority (CurrentRequest n) (Some req))")
  case True
  then have cond: "state_of n = HELD \<or> (state_of n = WANTED \<and> isHigherPriority (CurrentRequest n) (Some req))"
    by (auto simp: state_of_def)
  from True cond show ?thesis
    by (simp add: RequestAccess_deferred releases_def)
next
  case False
  then have cond: "\<not> (state_of n = HELD \<or> (state_of n = WANTED \<and> isHigherPriority (CurrentRequest n) (Some req)))"
    by (auto simp: state_of_def split: if_splits)
  let ?t = "max (LamportClock n) (LamportTimestamp req) + 1"
  let ?n = "n\<lparr>LamportClock := ?t\<rparr>"
  show ?thesis
  proof (cases "SendReleaseMSG net ?n (NodeId req) (map_of (Peers n) (NodeId req)) ?t")
    case (Returns evs)
    from SendReleaseMSG_Returns [OF Returns]
    have "releases evs = [(NodeId req, \<lparr>rel_NodeId = ID n, rel_LamportTimestamp = ?t\<rparr>)]"
      by simp
    with Returns cond show ?thesis
      by (simp add: RequestAccess_not_deferred [OF False])
  next
    case (Panics p)
    with cond show ?thesis by (simp add: RequestAccess_not_deferred [OF False])
  next
    case Blocks
    with cond show ?thesis by (simp add: RequestAccess_not_deferred [OF False])
  qed
qed

theorem RequestAccess_inserts_iff_witness:
  "state_of node1_wanted = WANTED
   \<and> isHigherPriority (CurrentRequest node1_wanted) (Some \<lparr>NodeId = ''node2'', LamportTimestamp = 5\<rparr>)
   \<and> RequestAccess answering_net node1_wanted \<lparr>NodeId = ''node2'', LamportTimestamp = 5\<rparr>
       = Returns (\<lparr>Granted = False, resp_LamportTimestamp = 6\<rparr>,
                  node1_wanted\<lparr>LamportClock := 6, DeferredResponses := [''node2'']\<rparr>, [])
   \<and> \<not> isHigherPriority (CurrentRequest node1_wanted) (Some \<lparr>NodeId = ''node2'', LamportTimestamp = 3\<rparr>)
   \<and> RequestAccess answering_net node1_wanted \<lparr>NodeId = ''node2'', LamportTimestamp = 3\<rparr>
       = Returns (\<lparr>Granted = False, resp_LamportTimestamp = 6\<rparr>,
                  node1_wanted\<lparr>LamportClock := 6\<rparr>,
                  [ReleaseSent ''node2'' \<lparr>rel_NodeId = ''node1'', rel_LamportTimestamp = 6\<rparr>])
   \<and> DeferredResponses (node1_wanted\<lparr>LamportClock := 6\<rparr>) = DeferredResponses node1_wanted"
  using RequestAccess_inserts_iff [where net = answering_net and n = node1_wanted
      and req = "\<lparr>NodeId = ''node2'', LamportTimestamp = 5\<rparr>"]
    RequestAccess_inserts_iff [where net = answering_net and n = node1_wanted
      and req = "\<lparr>NodeId = ''node2'', LamportTimestamp = 3\<rparr>"]
  by (simp add: node1_wanted_eq node1_def NewNode_def RequestAccess_def isHigherPriority_Some
      UpdateLamportClock_eq SendReleaseMSG_def answering_net_def state_of_def)

text \<open>
  C10. A nil request is never ahead and never behind; so a node flagged WANTED whose
  \<open>CurrentRequest\<close> is nil defers exactly when it is HELD, and the only panic of the
  handler is the nil client of a requester that is not a peer.
\<close>

theorem absent_request_never_defers:
  "isHigherPriority None r = False \<and> isHigherPriority r None = False
   \<and> (WantCS n \<and> CurrentRequest n = None \<longrightarrow>
        (case RequestAccess net n req of
           Returns (resp, n', evs) \<Rightarrow>
             DeferredResponses n' =
               (if InCS n then DeferredResponses n @ [NodeId req] else DeferredResponses n)
         | Panics p \<Rightarrow>
             \<not> InCS n \<and> p = NilClient (NodeId req) \<and> map_of (Peers n) (NodeId req) = None
         | Blocks \<Rightarrow>
             \<not> InCS n \<and>
             (\<exists>c. map_of (Peers n) (NodeId req) = Some c \<and>
                  release_rpc net c \<lparr>rel_NodeId = ID n,
                    rel_LamportTimestamp = max (LamportClock n) (LamportTimestamp req) + 1\<rparr> = Hangs)))"
proof -
  have "case RequestAccess net n req of
           Returns (resp, n', evs) \<Rightarrow>
             DeferredResponses n' =
               (if InCS n then DeferredResponses n @ [NodeId req] else DeferredResponses n)
         | Panics p \<Rightarrow>
             \<not> InCS n \<and> p = NilClient (NodeId req) \<and> map_of (Peers n) (NodeId req) = None
         | Blocks \<Rightarrow>
             \<not> InCS n \<and>
             (\<exists>c. map_of (Peers n) (NodeId req) = Some c \<and>
                  release_rpc net c \<lparr>rel_NodeId = ID n,
                    rel_LamportTimestamp = max (LamportClock n) (LamportTimestamp req) + 1\<rparr> = Hangs)"
    if "CurrentRequest n = None"
  proof (cases "InCS n")
    case True
    then show ?thesis by (simp add: RequestAccess_deferred)
  next
    case False
    with that have "\<not> (InCS n \<or> (WantCS n \<and> isHigherPriority (CurrentRequest n) (Some req)))"
      by simp
    from RequestAccess_not_deferred [OF this] False show ?thesis
      by (auto simp: SendReleaseMSG_def Let_def split: option.splits rpc.splits)
  qed
  then show ?thesis by simp
qed

theorem absent_request_never_defers_witness:
  "WantCS (node1\<lparr>WantCS := True\<rparr>) \<and> CurrentRequest (node1\<lparr>WantCS := True\<rparr>) = None
   \<and> RequestAccess answering_net (node1\<lparr>WantCS := True\<rparr>) \<lparr>NodeId = ''node2'', LamportTimestamp = 3\<rparr>
       = Returns (\<lparr>Granted = False, resp_LamportTimestamp = 4\<rparr>,
                  node1\<lparr>WantCS := True, LamportClock := 4\<rparr>,
                  [ReleaseSent ''node2'' \<lparr>rel_NodeId = ''node1'', rel_LamportTimestamp = 4\<rparr>])
   \<and> DeferredResponses (node1\<lparr>WantCS := True, LamportClock := 4\<rparr>) = DeferredResponses (node1\<lparr>WantCS := True\<rparr>)"
  using absent_request_never_defers [where r = "Some \<lparr>NodeId = ''node2'', LamportTimestamp = 3\<rparr>"
      and n = "node1\<lparr>WantCS := True\<rparr>" and net = answering_net
      and req = "\<lparr>NodeId = ''node2'', LamportTimestamp = 3\<rparr>"]
  by (simp add: node1_def NewNode_def RequestAccess_def UpdateLamportClock_eq SendReleaseMSG_def
      answering_net_def)

section \<open>The deferred list\<close>

lemma serve_requests_deferred:
  "serve_requests net n reqs = Returns (n', evs) \<Longrightarrow>
     DeferredResponses n' = DeferredResponses n @
       map NodeId (filter (\<lambda>req. InCS n \<or> (WantCS n \<and> isHigherPriority (CurrentRequest n) (Some req))) reqs)
     \<and> InCS n' = InCS n \<and> WantCS n' = WantCS n \<and> CurrentRequest n' = CurrentRequest n"
proof (induction reqs arbitrary: n evs)
  case Nil
  then show ?case by simp
next
  case (Cons req reqs)
  from Cons.prems obtain resp n1 evs1 evs2 where
    step: "RequestAccess net n req = Returns (resp, n1, evs1)"
    and rest: "serve_requests net n1 reqs = Returns (n', evs2)"
    by (auto simp: after_events_Returns split: outcome.splits)
  from RequestAccess_Returns_fields [OF step] Cons.IH [OF rest]
  show ?case by simp
qed

lemma serve_requests_held:
  "InCS n \<Longrightarrow> \<exists>n'. serve_requests net n reqs = Returns (n', [])
     \<and> DeferredResponses n' = DeferredResponses n @ map NodeId reqs"
proof (induction reqs arbitrary: n)
  case Nil
  then show ?case by simp
next
  case (Cons req reqs)
  let ?n1 = "n\<lparr>LamportClock := max (LamportClock n) (LamportTimestamp req) + 1,
                DeferredResponses := DeferredResponses n @ [NodeId req]\<rparr>"
  from Cons.prems have "InCS ?n1" by simp
  from Cons.IH [OF this] Cons.prems show ?case
    by (auto simp: RequestAccess_deferred after_events_def)
qed

text \<open>
  C4, as the code has it. \<open>DeferredResponses\<close> is a list and every deferral is a
  \<open>PushBack\<close>: after a sequence of inbound requests that the handler answered, the list
  is the old one followed by the requesters of the deferred requests, in the order they
  came, an identity once for each of its deferred requests. A HELD node answers every
  sequence, and defers all of it.
\<close>

theorem deferred_is_fifo_list:
  "(serve_requests net n reqs = Returns (n', evs) \<longrightarrow>
      DeferredResponses n' = DeferredResponses n @
        map NodeId (filter (\<lambda>req. InCS n \<or> (WantCS n \<and> isHigherPriority (CurrentRequest n) (Some req))) reqs))
   \<and> (InCS n \<longrightarrow>
        (\<exists>m. serve_requests net n reqs = Returns (m, [])
           \<and> DeferredResponses m = DeferredResponses n @ map NodeId reqs))"
  using serve_requests_deferred [of net n reqs n' evs] serve_requests_held [of n net reqs]
  by blast

theorem deferred_is_fifo_list_witness:
  "serve_requests answering_net node1_wanted
      [\<lparr>NodeId = ''node2'', LamportTimestamp = 5\<rparr>, \<lparr>NodeId = ''node3'', LamportTimestamp = 3\<rparr>,
       \<lparr>NodeId = ''node3'', LamportTimestamp = 5\<rparr>]
     = Returns (node1_wanted\<lparr>LamportClock := 8, DeferredResponses := [''node2'', ''node3'']\<rparr>,
                [ReleaseSent ''node3'' \<lparr>rel_NodeId = ''node1'', rel_LamportTimestamp = 7\<rparr>])
   \<and> InCS (enter_CS node1_wanted)
   \<and> (\<exists>m. serve_requests answering_net (enter_CS node1_wanted)
            [\<lparr>NodeId = ''node3'', LamportTimestamp = 6\<rparr>, \<lparr>NodeId = ''node2'', LamportTimestamp = 7\<rparr>,
             \<lparr>NodeId = ''node3'', LamportTimestamp = 8\<rparr>] = Returns (m, [])
          \<and> DeferredResponses m = [''node3'', ''node2'', ''node3''])"
proof -
  have run: "serve_requests answering_net node1_wanted
      [\<lparr>NodeId = ''node2'', LamportTimestamp = 5\<rparr>, \<lparr>NodeId = ''node3'', LamportTimestamp = 3\<rparr>,
       \<lparr>NodeId = ''node3'', LamportTimestamp = 5\<rparr>]
     = Returns (node1_wanted\<lparr>LamportClock := 8, DeferredResponses := [''node2'', ''node3'']\<rparr>,
                [ReleaseSent ''node3'' \<lparr>rel_NodeId = ''node1'', rel_LamportTimestamp = 7\<rparr>])"
    by (simp add: node1_wanted_eq node1_def NewNode_def RequestAccess_def isHigherPriority_Some
      UpdateLamportClock_eq SendReleaseMSG_def answering_net_def after_events_def)
  have held: "InCS (enter_CS node1_wanted)" "DeferredResponses (enter_CS node1_wanted) = []"
    by (simp_all add: enter_CS_def node1_wanted_eq node1_def NewNode_def)
  from deferred_is_fifo_list [where n = node1_wanted and net = answering_net
      and reqs = "[\<lparr>NodeId = ''node2'', LamportTimestamp = 5\<rparr>, \<lparr>NodeId = ''node3'', LamportTimestamp = 3\<rparr>,
       \<lparr>NodeId = ''node3'', LamportTimestamp = 5\<rparr>]"
      and n' = "node1_wanted\<lparr>LamportClock := 8, DeferredResponses := [''node2'', ''node3'']\<rparr>"
      and evs = "[ReleaseSent ''node3'' \<lparr>rel_NodeId = ''node1'', rel_LamportTimestamp = 7\<rparr>]"]
    deferred_is_fifo_list [where n = "enter_CS node1_wanted" and net = answering_net
      and reqs = "[\<lparr>NodeId = ''node3'', LamportTimestamp = 6\<rparr>, \<lparr>NodeId = ''node2'', LamportTimestamp = 7\<rparr>,
             \<lparr>NodeId = ''node3'', LamportTimestamp = 8\<rparr>]"]
    run held
  show ?thesis by simp
qed

text \<open>
  C4 as stated fails: \<open>node1\<close>, HELD, receives two requests of \<open>node2\<close>, and \<open>node2\<close> is
  in the deferred list twice.
\<close>

theorem deferred_twice:
  "serve_requests answering_net (enter_CS node1_wanted)
      [\<lparr>NodeId = ''node2'', LamportTimestamp = 6\<rparr>, \<lparr>NodeId = ''node2'', LamportTimestamp = 9\<rparr>]
    = Returns (enter_CS node1_wanted\<lparr>LamportClock := 10, DeferredResponses := [''node2'', ''node2'']\<rparr>, [])
   \<and> count_list [''node2'', ''node2''] ''node2'' = 2"
  by (simp add: node1_wanted_eq enter_CS_def node1_def NewNode_def RequestAccess_def
      UpdateLamportClock_eq after_events_def)

section \<open>The release step\<close>

lemma releases_append [simp]: "releases (evs @ evs') = releases evs @ releases evs'"
  by (simp add: releases_def)

lemma releases_simps [simp]:
  "releases [] = []"
  "releases (ReleaseSent p m # evs) = (p, m) # releases evs"
  "releases (RequestSent q r # evs) = releases evs"
  "releases (ReleaseError p # evs) = releases evs"
  "releases (EnterCS # evs) = releases evs"
  "releases (LeaveCS # evs) = releases evs"
  by (simp_all add: releases_def)

lemma flush_deferred_Nil:
  "DeferredResponses n = [] \<Longrightarrow> flush_deferred net n ts = Returns (n, [])"
  by (subst flush_deferred.simps) simp

lemma flush_deferred_Cons:
  "DeferredResponses n = p # rest \<Longrightarrow>
     flush_deferred net n ts =
       (case SendReleaseMSG net n p (map_of (Peers n) p) ts of
          Returns evs \<Rightarrow> after_events evs (flush_deferred net (n\<lparr>DeferredResponses := rest\<rparr>) ts)
        | Panics q \<Rightarrow> Panics q
        | Blocks \<Rightarrow> Blocks)"
  by (subst flush_deferred.simps) simp

lemma flush_deferred_Returns:
  "flush_deferred net n ts = Returns (n', evs) \<Longrightarrow>
     n' = n\<lparr>DeferredResponses := []\<rparr>
     \<and> releases evs = map (\<lambda>p. (p, \<lparr>rel_NodeId = ID n, rel_LamportTimestamp = ts\<rparr>)) (DeferredResponses n)"
proof (induction xs \<equiv> "DeferredResponses n" arbitrary: n evs)
  case Nil
  then show ?case by (simp add: flush_deferred_Nil)
next
  case (Cons p rest)
  from Cons.hyps(2) have d: "DeferredResponses n = p # rest" by simp
  from Cons.prems obtain evs1 evs2 where
    sent: "SendReleaseMSG net n p (map_of (Peers n) p) ts = Returns evs1"
    and rest: "flush_deferred net (n\<lparr>DeferredResponses := rest\<rparr>) ts = Returns (n', evs2)"
    and evs: "evs = evs1 @ evs2"
    by (auto simp: flush_deferred_Cons [OF d] after_events_Returns split: outcome.splits)
  from Cons.hyps(1) [OF _ rest] SendReleaseMSG_Returns [OF sent] d evs
  show ?case by simp
qed

lemma flush_deferred_peers:
  assumes "\<forall>p \<in> set (DeferredResponses n). \<exists>c. map_of (Peers n) p = Some c \<and>
             release_rpc net c \<lparr>rel_NodeId = ID n, rel_LamportTimestamp = ts\<rparr> \<noteq> Hangs"
  shows "\<exists>evs. flush_deferred net n ts = Returns (n\<lparr>DeferredResponses := []\<rparr>, evs)"
  using assms
proof (induction xs \<equiv> "DeferredResponses n" arbitrary: n)
  case Nil
  then show ?case by (simp add: flush_deferred_Nil)
next
  case (Cons p rest)
  from Cons.hyps(2) have d: "DeferredResponses n = p # rest" by simp
  with Cons.prems obtain c where c: "map_of (Peers n) p = Some c"
    and live: "release_rpc net c \<lparr>rel_NodeId = ID n, rel_LamportTimestamp = ts\<rparr> \<noteq> Hangs"
    by auto
  from SendReleaseMSG_known [OF live] obtain evs1 where
    sent: "SendReleaseMSG net n p (Some c) ts = Returns evs1" by blast
  let ?n = "n\<lparr>DeferredResponses := rest\<rparr>"
  from Cons.prems d
  have "\<forall>q \<in> set (DeferredResponses ?n). \<exists>c. map_of (Peers ?n) q = Some c \<and>
          release_rpc net c \<lparr>rel_NodeId = ID ?n, rel_LamportTimestamp = ts\<rparr> \<noteq> Hangs"
    by simp
  from Cons.hyps(1) [OF _ this] obtain evs2 where
    "flush_deferred net ?n ts = Returns (?n\<lparr>DeferredResponses := []\<rparr>, evs2)" by auto
  with sent c show ?case
    by (simp add: flush_deferred_Cons [OF d] after_events_def)
qed

lemma count_release_targets:
  "length (filter (\<lambda>x. fst x = p) (map (\<lambda>q. (q, m)) xs)) = count_list xs p"
  by (induction xs) simp_all

lemma leave_CS_Returns:
  assumes "leave_CS net n = Returns (n', evs)"
  shows "n' = n\<lparr>InCS := False, WantCS := False, LamportClock := LamportClock n + 1,
                DeferredResponses := []\<rparr>
     \<and> releases evs = map (\<lambda>p. (p, \<lparr>rel_NodeId = ID n, rel_LamportTimestamp = LamportClock n + 1\<rparr>))
                         (DeferredResponses n)"
proof -
  let ?n3 = "n\<lparr>InCS := False, WantCS := False, LamportClock := LamportClock n + 1\<rparr>"
  from assms obtain evs' where
    f: "flush_deferred net ?n3 (LamportClock n + 1) = Returns (n', evs')" and e: "evs = LeaveCS # evs'"
    by (auto simp: leave_CS_def Let_def GetLamportClock_eq after_events_Returns)
  from flush_deferred_Returns [OF f] e show ?thesis by simp
qed

text \<open>
  C9, as the code has it. Where every entry of the deferred list names a peer whose
  release call returns, the release step (lines 147 to 163) returns: it has ticked the
  clock once, it has made one release call with that timestamp for every entry of the
  list, in the order of the list (so one call to an identity that is in the list once,
  and as many calls as entries to one that is there several times), the list is empty
  and the node is RELEASED.
\<close>

theorem release_flushes_deferred:
  assumes "\<forall>p \<in> set (DeferredResponses n). \<exists>c. map_of (Peers n) p = Some c \<and>
             release_rpc net c \<lparr>rel_NodeId = ID n, rel_LamportTimestamp = LamportClock n + 1\<rparr> \<noteq> Hangs"
  shows "\<exists>n' evs. leave_CS net n = Returns (n', evs)
     \<and> LamportClock n' = LamportClock n + 1
     \<and> releases evs = map (\<lambda>p. (p, \<lparr>rel_NodeId = ID n, rel_LamportTimestamp = LamportClock n + 1\<rparr>))
                         (DeferredResponses n)
     \<and> (\<forall>p. length (filter (\<lambda>x. fst x = p) (releases evs)) = count_list (DeferredResponses n) p)
     \<and> DeferredResponses n' = []
     \<and> state_of n' = RELEASED"
proof -
  let ?n3 = "n\<lparr>InCS := False, WantCS := False, LamportClock := LamportClock n + 1\<rparr>"
  from assms
  have "\<forall>p \<in> set (DeferredResponses ?n3). \<exists>c. map_of (Peers ?n3) p = Some c \<and>
          release_rpc net c \<lparr>rel_NodeId = ID ?n3, rel_LamportTimestamp = LamportClock n + 1\<rparr> \<noteq> Hangs"
    by simp
  from flush_deferred_peers [OF this] obtain evs' where
    "flush_deferred net ?n3 (LamportClock n + 1) = Returns (?n3\<lparr>DeferredResponses := []\<rparr>, evs')"
    by blast
  then have r: "leave_CS net n = Returns (?n3\<lparr>DeferredResponses := []\<rparr>, LeaveCS # evs')"
    by (simp add: leave_CS_def Let_def GetLamportClock_eq after_events_def)
  from leave_CS_Returns [OF r]
  have sent: "releases (LeaveCS # evs') =
      map (\<lambda>p. (p, \<lparr>rel_NodeId = ID n, rel_LamportTimestamp = LamportClock n + 1\<rparr>)) (DeferredResponses n)"
    by simp
  have "\<forall>p. length (filter (\<lambda>x. fst x = p) (releases (LeaveCS # evs')))
      = count_list (DeferredResponses n) p"
    unfolding sent count_release_targets by simp
  with r sent show ?thesis
    by (intro exI [of _ "?n3\<lparr>DeferredResponses := []\<rparr>"] exI [of _ "LeaveCS # evs'"])
       (simp add: state_of_def)
qed

theorem release_flushes_deferred_witness:
  "DeferredResponses node1_held = [''node2'', ''node3'']
   \<and> map_of (Peers node1_held) ''node2'' = Some ''localhost:5002''
   \<and> map_of (Peers node1_held) ''node3'' = Some ''localhost:5003''
   \<and> release_rpc answering_net ''localhost:5002''
         \<lparr>rel_NodeId = ID node1_held, rel_LamportTimestamp = LamportClock node1_held + 1\<rparr> \<noteq> Hangs
   \<and> release_rpc answering_net ''localhost:5003''
         \<lparr>rel_NodeId = ID node1_held, rel_LamportTimestamp = LamportClock node1_held + 1\<rparr> \<noteq> Hangs
   \<and> (\<exists>n' evs. leave_CS answering_net node1_held = Returns (n', evs)
        \<and> LamportClock n' = 6
        \<and> releases evs = [(''node2'', \<lparr>rel_NodeId = ''node1'', rel_LamportTimestamp = 6\<rparr>),
                           (''node3'', \<lparr>rel_NodeId = ''node1'', rel_LamportTimestamp = 6\<rparr>)]
        \<and> length (filter (\<lambda>x. fst x = ''node2'') (releases evs)) = 1
        \<and> length (filter (\<lambda>x. fst x = ''node3'') (releases evs)) = 1
        \<and> DeferredResponses n' = []
        \<and> state_of n' = RELEASED)"
proof -
  have vals: "DeferredResponses node1_held = [''node2'', ''node3'']"
    "map_of (Peers node1_held) ''node2'' = Some ''localhost:5002''"
    "map_of (Peers node1_held) ''node3'' = Some ''localhost:5003''"
    "ID node1_held = ''node1''" "LamportClock node1_held = 5"
    by (simp_all add: node1_held_def enter_CS_def node1_wanted_eq node1_def NewNode_def)
  have live: "release_rpc answering_net c m \<noteq> Hangs" for c m
    by (simp add: answering_net_def)
  have "\<forall>p \<in> set (DeferredResponses node1_held). \<exists>c. map_of (Peers node1_held) p = Some c \<and>
      release_rpc answering_net c
        \<lparr>rel_NodeId = ID node1_held, rel_LamportTimestamp = LamportClock node1_held + 1\<rparr> \<noteq> Hangs"
    by (simp add: vals live)
  from release_flushes_deferred [OF this] obtain n' evs where
    run: "leave_CS answering_net node1_held = Returns (n', evs)"
    and clock: "LamportClock n' = LamportClock node1_held + 1"
    and sent: "releases evs = map (\<lambda>p. (p, \<lparr>rel_NodeId = ID node1_held,
        rel_LamportTimestamp = LamportClock node1_held + 1\<rparr>)) (DeferredResponses node1_held)"
    and counts: "\<forall>p. length (filter (\<lambda>x. fst x = p) (releases evs))
        = count_list (DeferredResponses node1_held) p"
    and rest: "DeferredResponses n' = []" "state_of n' = RELEASED"
    by blast
  from counts have "length (filter (\<lambda>x. fst x = ''node2'') (releases evs)) = 1"
    and "length (filter (\<lambda>x. fst x = ''node3'') (releases evs)) = 1"
    by (simp_all add: vals)
  with run clock sent rest show ?thesis
    by (simp add: vals live)
qed

text \<open>
  C9 as stated fails: with \<open>node2\<close> deferred twice, the release step makes two release
  calls to \<open>node2\<close>.
\<close>

theorem release_twice_to_one_peer:
  "leave_CS answering_net ((enter_CS node1_wanted)\<lparr>DeferredResponses := [''node2'', ''node2'']\<rparr>)
     = Returns (node1\<lparr>LamportClock := 6,
                  CurrentRequest := Some \<lparr>NodeId = ''node1'', LamportTimestamp = 5\<rparr>\<rparr>,
                [LeaveCS,
                 ReleaseSent ''node2'' \<lparr>rel_NodeId = ''node1'', rel_LamportTimestamp = 6\<rparr>,
                 ReleaseSent ''node2'' \<lparr>rel_NodeId = ''node1'', rel_LamportTimestamp = 6\<rparr>])"
  by (simp add: enter_CS_def node1_wanted_eq node1_def NewNode_def answering_net_def
      leave_CS_def Let_def GetLamportClock_eq flush_deferred_Cons flush_deferred_Nil SendReleaseMSG_def
      after_events_def)

section \<open>The acquisition\<close>

lemma UpdateLamportClock_snd:
  "snd (UpdateLamportClock n m) = n\<lparr>LamportClock := max (LamportClock n) m + 1\<rparr>"
  by (simp add: UpdateLamportClock_eq)

lemma ReleaseAccess_eq:
  "ReleaseAccess n rel =
     (if Release n = []
      then Returns (\<lparr>Acknowledged = True,
                      ack_LamportTimestamp = max (LamportClock n) (rel_LamportTimestamp rel) + 1\<rparr>,
                    n\<lparr>LamportClock := max (LamportClock n) (rel_LamportTimestamp rel) + 1,
                      Release := [True]\<rparr>)
      else Blocks)"
  by (auto simp: ReleaseAccess_def UpdateLamportClock_eq Release_cap_def)

lemma recv_Release_eq:
  "recv_Release net peerID n =
     (case Release n of
        v # vs \<Rightarrow> Some (v, n\<lparr>Release := vs\<rparr>)
      | [] \<Rightarrow>
          (case inbound_release net peerID of
             None \<Rightarrow> None
           | Some rel \<Rightarrow>
               Some (True, n\<lparr>LamportClock := max (LamportClock n) (rel_LamportTimestamp rel) + 1,
                              Release := []\<rparr>)))"
  by (auto simp: recv_Release_def ReleaseAccess_eq split: list.splits option.splits)

lemma same_protocol_state_refl [simp]: "same_protocol_state n n"
  by (simp add: same_protocol_state_def)

lemma same_protocol_state_trans:
  assumes "same_protocol_state n n1" and "same_protocol_state n1 n2"
  shows "same_protocol_state n n2"
proof -
  from assms(1) have e1: "n1 = n\<lparr>LamportClock := LamportClock n1, Release := Release n1\<rparr>"
    by (simp add: same_protocol_state_def)
  from assms(2) have "n2 = n1\<lparr>LamportClock := LamportClock n2, Release := Release n2\<rparr>"
    by (simp add: same_protocol_state_def)
  also have "\<dots> = n\<lparr>LamportClock := LamportClock n2, Release := Release n2\<rparr>"
    by (subst e1) simp
  finally show ?thesis by (simp add: same_protocol_state_def)
qed

lemma request_worker_eq:
  "request_worker net n (peerID, c) =
     (case request_rpc net c (CurrentRequest n) of
        Hangs \<Rightarrow> (n, None, [RequestSent peerID (CurrentRequest n)])
      | TransportError \<Rightarrow> (n, Some False, [RequestSent peerID (CurrentRequest n)])
      | Reply resp \<Rightarrow>
          (let merged = max (LamportClock n) (resp_LamportTimestamp resp) + 1
           in case Release n of
                v # vs \<Rightarrow> (n\<lparr>LamportClock := merged, Release := vs\<rparr>, Some v,
                            [RequestSent peerID (CurrentRequest n)])
              | [] \<Rightarrow>
                  (case inbound_release net peerID of
                     None \<Rightarrow> (n\<lparr>LamportClock := merged\<rparr>, None,
                               [RequestSent peerID (CurrentRequest n)])
                   | Some rel \<Rightarrow>
                       (n\<lparr>LamportClock := max merged (rel_LamportTimestamp rel) + 1, Release := []\<rparr>,
                        Some True, [RequestSent peerID (CurrentRequest n)]))))"
  by (auto simp: request_worker_def UpdateLamportClock_eq recv_Release_eq Let_def
      split: rpc.splits list.splits option.splits)

lemma request_worker_same:
  assumes "request_worker net n p = (n', sent, evs)"
  shows "same_protocol_state n n' \<and> evs = [RequestSent (fst p) (CurrentRequest n)]"
proof -
  obtain peerID c where p: "p = (peerID, c)" by (cases p)
  from assms show ?thesis
    unfolding p request_worker_eq
    by (auto simp: same_protocol_state_def Let_def split: rpc.splits list.splits option.splits)
qed

lemma same_protocol_state_fields:
  assumes "same_protocol_state n n'"
  shows "ID n' = ID n \<and> Peers n' = Peers n \<and> WantCS n' = WantCS n \<and> InCS n' = InCS n
     \<and> DeferredResponses n' = DeferredResponses n \<and> CurrentRequest n' = CurrentRequest n
     \<and> ResponseCount n' = ResponseCount n \<and> Address n' = Address n"
proof -
  from assms have eq: "n' = n\<lparr>LamportClock := LamportClock n', Release := Release n'\<rparr>"
    by (simp add: same_protocol_state_def)
  show ?thesis by (subst (1 2 3 4 5 6 7 8) eq) simp
qed

lemma request_all_same:
  "request_all net n ps = (n', responses, evs) \<Longrightarrow>
     same_protocol_state n n'
     \<and> evs = map (\<lambda>p. RequestSent (fst p) (CurrentRequest n)) ps
     \<and> length responses \<le> length ps"
proof (induction ps arbitrary: n n' responses evs)
  case Nil
  then show ?case by simp
next
  case (Cons p ps)
  obtain n1 sent evs1 where w: "request_worker net n p = (n1, sent, evs1)"
    by (cases "request_worker net n p")
  obtain n2 rs evs2 where r: "request_all net n1 ps = (n2, rs, evs2)"
    by (cases "request_all net n1 ps")
  from Cons.prems w r have eq: "n' = n2"
    "responses = (case sent of None \<Rightarrow> [] | Some v \<Rightarrow> [v]) @ rs" "evs = evs1 @ evs2"
    by simp_all
  from request_worker_same [OF w] have s1: "same_protocol_state n n1"
    and e1: "evs1 = [RequestSent (fst p) (CurrentRequest n)]" by simp_all
  from Cons.IH [OF r] have s2: "same_protocol_state n1 n2"
    and e2: "evs2 = map (\<lambda>p. RequestSent (fst p) (CurrentRequest n1)) ps"
    and l2: "length rs \<le> length ps" by simp_all
  from same_protocol_state_fields [OF s1] have "CurrentRequest n1 = CurrentRequest n" by simp
  with same_protocol_state_trans [OF s1 s2] e1 e2 l2 eq show ?case
    by (cases sent) simp_all
qed

lemma stamp_request_eq:
  "stamp_request n =
     n\<lparr>WantCS := True, LamportClock := LamportClock n + 1,
       CurrentRequest := Some \<lparr>NodeId = ID n, LamportTimestamp = LamportClock n + 1\<rparr>,
       ResponseCount := 0\<rparr>"
  by (simp add: stamp_request_def GetLamportClock_eq)

lemma ExecuteCriticalSection_Returns:
  assumes "ExecuteCriticalSection net n = Returns (n', evs)"
  shows "n' = n\<lparr>InCS := False, WantCS := False, LamportClock := LamportClock n + 1,
                DeferredResponses := []\<rparr>
     \<and> (\<exists>evs'. evs = EnterCS # LeaveCS # evs')"
proof -
  from assms obtain evs1 where l: "leave_CS net (enter_CS n) = Returns (n', evs1)"
    and e: "evs = EnterCS # evs1"
    by (auto simp: ExecuteCriticalSection_def after_events_Returns)
  from l obtain evs2 where "evs1 = LeaveCS # evs2"
    by (auto simp: leave_CS_def Let_def GetLamportClock_eq after_events_Returns)
  with leave_CS_Returns [OF l] e show ?thesis
    by (simp add: enter_CS_def)
qed

lemma RequestCriticalSection_Returns:
  assumes "\<not> InCS n" "\<not> WantCS n" "RequestCriticalSection net n = Returns (n', evs)"
  shows "n' = n\<lparr>LamportClock := LamportClock n', Release := Release n',
                CurrentRequest := Some \<lparr>NodeId = ID n, LamportTimestamp = LamportClock n + 1\<rparr>,
                ResponseCount := 0, DeferredResponses := []\<rparr>
     \<and> EnterCS \<in> set evs"
proof -
  let ?n1 = "stamp_request n"
  obtain n2 responses evs1 where ra: "request_all net ?n1 (Peers ?n1) = (n2, responses, evs1)"
    by (cases "request_all net ?n1 (Peers ?n1)")
  from assms ra obtain evs2 where ex: "ExecuteCriticalSection net n2 = Returns (n', evs2)"
    and e: "evs = evs1 @ evs2"
    by (auto simp: RequestCriticalSection_def Let_def after_events_Returns split: option.splits)
  from request_all_same [OF ra] have s: "same_protocol_state ?n1 n2" by simp
  then have n2: "n2 = ?n1\<lparr>LamportClock := LamportClock n2, Release := Release n2\<rparr>"
    by (simp add: same_protocol_state_def)
  from ExecuteCriticalSection_Returns [OF ex] obtain evs' where
    n': "n' = n2\<lparr>InCS := False, WantCS := False, LamportClock := LamportClock n2 + 1,
                DeferredResponses := []\<rparr>" and e2: "evs2 = EnterCS # LeaveCS # evs'"
    by blast
  have "n' = n\<lparr>LamportClock := LamportClock n', Release := Release n',
                CurrentRequest := Some \<lparr>NodeId = ID n, LamportTimestamp = LamportClock n + 1\<rparr>,
                ResponseCount := 0, DeferredResponses := []\<rparr>"
    using assms(1,2) by (subst (1 2 3) n', subst (1 2 3 4) n2) (simp add: stamp_request_eq)
  with e e2 show ?thesis by simp
qed

lemma RequestCriticalSection_Returns_fields:
  assumes "\<not> InCS n" "\<not> WantCS n" "RequestCriticalSection net n = Returns (n', evs)"
  shows "InCS n' = False \<and> WantCS n' = False
     \<and> CurrentRequest n' = Some \<lparr>NodeId = ID n, LamportTimestamp = LamportClock n + 1\<rparr>"
proof -
  from RequestCriticalSection_Returns [OF assms]
  have eq: "n' = n\<lparr>LamportClock := LamportClock n', Release := Release n',
                CurrentRequest := Some \<lparr>NodeId = ID n, LamportTimestamp = LamportClock n + 1\<rparr>,
                ResponseCount := 0, DeferredResponses := []\<rparr>" by simp
  have "InCS n' = InCS n" by (subst eq) simp
  moreover have "WantCS n' = WantCS n" by (subst eq) simp
  moreover have "CurrentRequest n' = Some \<lparr>NodeId = ID n, LamportTimestamp = LamportClock n + 1\<rparr>"
    by (subst eq) simp
  ultimately show ?thesis using assms(1,2) by simp
qed

lemma ReleaseAccess_Returns_fields:
  "ReleaseAccess n rel = Returns (ack, n') \<Longrightarrow>
     InCS n' = InCS n \<and> WantCS n' = WantCS n \<and> CurrentRequest n' = CurrentRequest n"
  by (auto simp: ReleaseAccess_eq split: if_splits)

lemma node1_held_eq:
  "node1_held = node1\<lparr>LamportClock := 5, WantCS := True, InCS := True,
      DeferredResponses := [''node2'', ''node3''],
      CurrentRequest := Some \<lparr>NodeId = ''node1'', LamportTimestamp = 5\<rparr>\<rparr>"
  by (simp add: node1_held_def enter_CS_def node1_wanted_eq node1_def NewNode_def)

lemma wait_responses_eq:
  "wait_responses needed responses granted =
     (if length responses < needed then None
      else Some (granted + length (filter (\<lambda>v. v) (take needed responses))))"
  by (induction needed responses granted rule: wait_responses.induct) auto

text \<open>
  The count of grants decides nothing: a RELEASED node that requests the critical
  section blocks if fewer values than peers arrive on \<open>responses\<close>, and enters the
  critical section otherwise, whatever the values are.
\<close>

lemma RequestCriticalSection_ignores_granted:
  assumes "\<not> InCS n" "\<not> WantCS n"
    and "request_all net (stamp_request n) (Peers n) = (n2, responses, evs)"
  shows "RequestCriticalSection net n =
     (if length responses < length (Peers n) then Blocks
      else after_events evs (ExecuteCriticalSection net n2))"
proof -
  have p: "Peers (stamp_request n) = Peers n" by (simp add: stamp_request_eq)
  from request_all_same [OF assms(3)] have "same_protocol_state (stamp_request n) n2" by simp
  from same_protocol_state_fields [OF this] p have "Peers n2 = Peers n" by simp
  with assms p show ?thesis
    by (simp add: RequestCriticalSection_def Let_def wait_responses_eq)
qed

text \<open>
  C2 (the node enters the critical section only after a grant from every peer, and a
  transport error on a request keeps it out) at an input where the code does otherwise:
  the requests of \<open>node1\<close> to both of its peers fail with a transport error. Both
  goroutines send \<open>false\<close>, the loop receives its two values and counts no grant, and
  the node enters the critical section and leaves it.
\<close>

theorem enters_without_grants:
  "request_all failing_net (stamp_request node1) (Peers (stamp_request node1))
     = (stamp_request node1, [False, False],
        [RequestSent ''node2'' (Some \<lparr>NodeId = ''node1'', LamportTimestamp = 1\<rparr>),
         RequestSent ''node3'' (Some \<lparr>NodeId = ''node1'', LamportTimestamp = 1\<rparr>)])
   \<and> wait_responses 2 [False, False] 0 = Some 0
   \<and> RequestCriticalSection failing_net node1
     = Returns (node1\<lparr>LamportClock := 2,
                  CurrentRequest := Some \<lparr>NodeId = ''node1'', LamportTimestamp = 1\<rparr>\<rparr>,
                [RequestSent ''node2'' (Some \<lparr>NodeId = ''node1'', LamportTimestamp = 1\<rparr>),
                 RequestSent ''node3'' (Some \<lparr>NodeId = ''node1'', LamportTimestamp = 1\<rparr>),
                 EnterCS, LeaveCS])"
proof -
  have two: "(2::nat) = Suc (Suc 0)" by simp
  show ?thesis
    by (simp add: RequestCriticalSection_def stamp_request_eq request_worker_eq two
      ExecuteCriticalSection_def enter_CS_def leave_CS_def Let_def GetLamportClock_eq
      flush_deferred_Nil after_events_def node1_def NewNode_def failing_net_def)
qed

text \<open>
  C3 as stated fails: after a whole cycle of \<open>node1\<close> the node is RELEASED and
  \<open>CurrentRequest\<close> is still the request of the cycle.
\<close>

theorem cycle_keeps_CurrentRequest:
  "RequestCriticalSection answering_net node1
     = Returns (node1\<lparr>LamportClock := 105,
                  CurrentRequest := Some \<lparr>NodeId = ''node1'', LamportTimestamp = 1\<rparr>\<rparr>,
                [RequestSent ''node2'' (Some \<lparr>NodeId = ''node1'', LamportTimestamp = 1\<rparr>),
                 RequestSent ''node3'' (Some \<lparr>NodeId = ''node1'', LamportTimestamp = 1\<rparr>),
                 EnterCS, LeaveCS])
   \<and> state_of (node1\<lparr>LamportClock := 105,
                  CurrentRequest := Some \<lparr>NodeId = ''node1'', LamportTimestamp = 1\<rparr>\<rparr>) = RELEASED"
  by (simp add: RequestCriticalSection_def stamp_request_eq request_worker_eq
      ExecuteCriticalSection_def enter_CS_def leave_CS_def Let_def GetLamportClock_eq
      flush_deferred_Nil after_events_def state_of_def node1_def NewNode_def answering_net_def)

text \<open>
  C3, as the code has it. RELEASED to WANTED sets \<open>CurrentRequest\<close> to the node's
  identity and the fresh tick; entering and leaving the critical section keep it, and so
  do the two handlers; a call of \<open>RequestCriticalSection\<close> on a node that is not RELEASED
  changes nothing. So no operation clears \<open>CurrentRequest\<close>: it is present whenever the
  state is not RELEASED once a request was stamped, and after a whole cycle the node is
  RELEASED with the request of that cycle still there.
\<close>

theorem CurrentRequest_set_never_cleared:
  "(state_of n = RELEASED \<longrightarrow>
      state_of (stamp_request n) = WANTED
      \<and> CurrentRequest (stamp_request n)
          = Some \<lparr>NodeId = ID n, LamportTimestamp = LamportClock n + 1\<rparr>)
   \<and> state_of (enter_CS n) = HELD \<and> CurrentRequest (enter_CS n) = CurrentRequest n
   \<and> (\<forall>n' evs. leave_CS net h = Returns (n', evs) \<longrightarrow>
         state_of n' = RELEASED \<and> CurrentRequest n' = CurrentRequest h)
   \<and> (state_of n = RELEASED \<longrightarrow>
        (\<forall>n' evs. RequestCriticalSection net n = Returns (n', evs) \<longrightarrow>
           state_of n' = RELEASED
           \<and> CurrentRequest n' = Some \<lparr>NodeId = ID n, LamportTimestamp = LamportClock n + 1\<rparr>))
   \<and> (state_of w \<noteq> RELEASED \<longrightarrow> RequestCriticalSection net w = Returns (w, []))
   \<and> (\<forall>resp n' evs. RequestAccess net n req = Returns (resp, n', evs) \<longrightarrow>
         state_of n' = state_of n \<and> CurrentRequest n' = CurrentRequest n)
   \<and> (\<forall>ack n'. ReleaseAccess n rel = Returns (ack, n') \<longrightarrow>
         state_of n' = state_of n \<and> CurrentRequest n' = CurrentRequest n)"
proof (intro conjI impI allI)
  assume "state_of n = RELEASED"
  then show "state_of (stamp_request n) = WANTED"
    and "CurrentRequest (stamp_request n)
          = Some \<lparr>NodeId = ID n, LamportTimestamp = LamportClock n + 1\<rparr>"
    by (simp_all add: stamp_request_eq state_of_def split: if_splits)
next
  show "state_of (enter_CS n) = HELD" "CurrentRequest (enter_CS n) = CurrentRequest n"
    by (simp_all add: enter_CS_def state_of_def)
next
  fix n' evs
  assume "leave_CS net h = Returns (n', evs)"
  from leave_CS_Returns [OF this]
  show "state_of n' = RELEASED" "CurrentRequest n' = CurrentRequest h"
    by (simp_all add: state_of_def)
next
  fix n' evs
  assume r: "state_of n = RELEASED" and c: "RequestCriticalSection net n = Returns (n', evs)"
  from r have f: "\<not> InCS n" "\<not> WantCS n" by (simp_all add: state_of_def split: if_splits)
  from RequestCriticalSection_Returns_fields [OF f c]
  show "state_of n' = RELEASED"
    "CurrentRequest n' = Some \<lparr>NodeId = ID n, LamportTimestamp = LamportClock n + 1\<rparr>"
    by (simp_all add: state_of_def)
next
  assume "state_of w \<noteq> RELEASED"
  then show "RequestCriticalSection net w = Returns (w, [])"
    by (auto simp: RequestCriticalSection_def state_of_def split: if_splits)
next
  fix resp n' evs
  assume "RequestAccess net n req = Returns (resp, n', evs)"
  from RequestAccess_Returns_fields [OF this]
  show "state_of n' = state_of n" "CurrentRequest n' = CurrentRequest n"
    by (simp_all add: state_of_def)
next
  fix ack n'
  assume "ReleaseAccess n rel = Returns (ack, n')"
  from ReleaseAccess_Returns_fields [OF this]
  show "state_of n' = state_of n" "CurrentRequest n' = CurrentRequest n"
    by (simp_all add: state_of_def)
qed

theorem CurrentRequest_set_never_cleared_witness:
  "state_of node1 = RELEASED
   \<and> state_of (stamp_request node1) = WANTED
   \<and> CurrentRequest (stamp_request node1) = Some \<lparr>NodeId = ''node1'', LamportTimestamp = 1\<rparr>
   \<and> (\<exists>n' evs. leave_CS answering_net node1_held = Returns (n', evs)
         \<and> state_of n' = RELEASED
         \<and> CurrentRequest n' = Some \<lparr>NodeId = ''node1'', LamportTimestamp = 5\<rparr>)
   \<and> (\<exists>n' evs. RequestCriticalSection answering_net node1 = Returns (n', evs)
         \<and> state_of n' = RELEASED
         \<and> CurrentRequest n' = Some \<lparr>NodeId = ''node1'', LamportTimestamp = 1\<rparr>)
   \<and> state_of node1_wanted \<noteq> RELEASED
   \<and> RequestCriticalSection answering_net node1_wanted = Returns (node1_wanted, [])
   \<and> (\<exists>resp n' evs. RequestAccess answering_net node1 \<lparr>NodeId = ''node3'', LamportTimestamp = 1\<rparr>
           = Returns (resp, n', evs)
         \<and> state_of n' = RELEASED \<and> CurrentRequest n' = None)
   \<and> (\<exists>ack n'. ReleaseAccess node1 \<lparr>rel_NodeId = ''node2'', rel_LamportTimestamp = 2\<rparr>
           = Returns (ack, n')
         \<and> state_of n' = RELEASED \<and> CurrentRequest n' = None)"
proof -
  have released: "state_of node1 = RELEASED"
    by (simp add: state_of_def node1_def NewNode_def)
  have wanted: "state_of node1_wanted \<noteq> RELEASED"
    by (simp add: state_of_def node1_wanted_eq node1_def NewNode_def)
  have leave: "\<exists>n' evs. leave_CS answering_net node1_held = Returns (n', evs)"
    by (simp add: node1_held_eq node1_def NewNode_def answering_net_def
        leave_CS_def Let_def GetLamportClock_eq flush_deferred_Cons flush_deferred_Nil
        SendReleaseMSG_def after_events_def)
  have cycle: "\<exists>n' evs. RequestCriticalSection answering_net node1 = Returns (n', evs)"
    by (simp add: RequestCriticalSection_def stamp_request_eq request_worker_eq
      ExecuteCriticalSection_def enter_CS_def leave_CS_def Let_def GetLamportClock_eq
      flush_deferred_Nil after_events_def node1_def NewNode_def answering_net_def)
  have req: "\<exists>resp n' evs. RequestAccess answering_net node1 \<lparr>NodeId = ''node3'', LamportTimestamp = 1\<rparr>
           = Returns (resp, n', evs)"
    by (simp add: RequestAccess_def UpdateLamportClock_eq SendReleaseMSG_def
        node1_def NewNode_def answering_net_def)
  have rel: "\<exists>ack n'. ReleaseAccess node1 \<lparr>rel_NodeId = ''node2'', rel_LamportTimestamp = 2\<rparr>
           = Returns (ack, n')"
    by (simp add: ReleaseAccess_eq node1_def NewNode_def)
  have ids: "ID node1 = ''node1''" "LamportClock node1 = 0" "CurrentRequest node1 = None"
    "CurrentRequest node1_held = Some \<lparr>NodeId = ''node1'', LamportTimestamp = 5\<rparr>"
    by (simp_all add: node1_held_eq node1_def NewNode_def)
  from CurrentRequest_set_never_cleared [where n = node1 and h = node1_held and w = node1_wanted
      and net = answering_net and req = "\<lparr>NodeId = ''node3'', LamportTimestamp = 1\<rparr>"
      and rel = "\<lparr>rel_NodeId = ''node2'', rel_LamportTimestamp = 2\<rparr>"]
    released wanted leave cycle req rel
  show ?thesis unfolding ids by (simp only: simp_thms add_0 one_add_one) blast
qed

text \<open>
  C5, as the code has it. The goroutine of a peer merges the timestamp of the
  \<open>RequestAccess\<close> response into the clock, by maximum and increment (after which the
  release that wakes it, if it has to wait for one, is merged in its turn).
  \<open>SendReleaseMSG\<close> drops the \<open>ReleaseAccess\<close> response: the release step moves the
  clock by its own tick only, and the request handler leaves it at the merge of the
  inbound request.
\<close>

theorem request_replies_merged_release_replies_dropped:
  "(request_rpc net c (CurrentRequest n) = Reply resp \<longrightarrow>
      LamportClock (fst (request_worker net n (peerID, c))) =
        (let merged = max (LamportClock n) (resp_LamportTimestamp resp) + 1
         in if Release n = []
            then (case inbound_release net peerID of
                    None \<Rightarrow> merged
                  | Some rel \<Rightarrow> max merged (rel_LamportTimestamp rel) + 1)
            else merged))
   \<and> (release_rpc net c \<lparr>rel_NodeId = ID n, rel_LamportTimestamp = ts\<rparr> = Reply ack \<longrightarrow>
        SendReleaseMSG net n peerID (Some c) ts
          = Returns [ReleaseSent peerID \<lparr>rel_NodeId = ID n, rel_LamportTimestamp = ts\<rparr>])
   \<and> (\<forall>n' evs. leave_CS net h = Returns (n', evs) \<longrightarrow> LamportClock n' = LamportClock h + 1)
   \<and> (\<forall>r n' evs. RequestAccess net n req = Returns (r, n', evs) \<longrightarrow>
         LamportClock n' = max (LamportClock n) (LamportTimestamp req) + 1)"
proof -
  have worker: "LamportClock (fst (request_worker net n (peerID, c))) =
        (let merged = max (LamportClock n) (resp_LamportTimestamp resp) + 1
         in if Release n = []
            then (case inbound_release net peerID of
                    None \<Rightarrow> merged
                  | Some rel \<Rightarrow> max merged (rel_LamportTimestamp rel) + 1)
            else merged)"
    if "request_rpc net c (CurrentRequest n) = Reply resp"
    using that by (simp add: request_worker_eq Let_def split: list.splits option.splits)
  have send: "SendReleaseMSG net n peerID (Some c) ts
          = Returns [ReleaseSent peerID \<lparr>rel_NodeId = ID n, rel_LamportTimestamp = ts\<rparr>]"
    if "release_rpc net c \<lparr>rel_NodeId = ID n, rel_LamportTimestamp = ts\<rparr> = Reply ack"
    using that by (simp add: SendReleaseMSG_def)
  have leave: "LamportClock n' = LamportClock h + 1"
    if "leave_CS net h = Returns (n', evs)" for n' evs
    using leave_CS_Returns [OF that] by simp
  have handler: "LamportClock n' = max (LamportClock n) (LamportTimestamp req) + 1"
    if "RequestAccess net n req = Returns (r, n', evs)" for r n' evs
  proof (cases "InCS n \<or> (WantCS n \<and> isHigherPriority (CurrentRequest n) (Some req))")
    case True
    with that show ?thesis by (auto simp: RequestAccess_deferred)
  next
    case False
    from that show ?thesis
      unfolding RequestAccess_not_deferred [OF False] by (auto split: outcome.splits)
  qed
  from worker send leave handler show ?thesis by blast
qed

theorem request_replies_merged_release_replies_dropped_witness:
  "request_rpc answering_net ''localhost:5002'' (CurrentRequest node1_wanted)
     = Reply \<lparr>Granted = False, resp_LamportTimestamp = 100\<rparr>
   \<and> LamportClock (fst (request_worker answering_net node1_wanted (''node2'', ''localhost:5002''))) = 102
   \<and> release_rpc answering_net ''localhost:5002'' \<lparr>rel_NodeId = ID node1_wanted, rel_LamportTimestamp = 6\<rparr>
       = Reply \<lparr>Acknowledged = True, ack_LamportTimestamp = 100\<rparr>
   \<and> SendReleaseMSG answering_net node1_wanted ''node2'' (Some ''localhost:5002'') 6
       = Returns [ReleaseSent ''node2'' \<lparr>rel_NodeId = ''node1'', rel_LamportTimestamp = 6\<rparr>]
   \<and> (\<exists>n' evs. leave_CS answering_net node1_held = Returns (n', evs) \<and> LamportClock n' = 6)
   \<and> (\<exists>r n' evs. RequestAccess answering_net node1_wanted \<lparr>NodeId = ''node2'', LamportTimestamp = 3\<rparr>
          = Returns (r, n', evs) \<and> LamportClock n' = 6)"
proof -
  have reply: "request_rpc answering_net ''localhost:5002'' (CurrentRequest node1_wanted)
     = Reply \<lparr>Granted = False, resp_LamportTimestamp = 100\<rparr>"
    and ack: "release_rpc answering_net ''localhost:5002''
        \<lparr>rel_NodeId = ID node1_wanted, rel_LamportTimestamp = 6\<rparr>
       = Reply \<lparr>Acknowledged = True, ack_LamportTimestamp = 100\<rparr>"
    by (simp_all add: answering_net_def)
  have leave: "\<exists>n' evs. leave_CS answering_net node1_held = Returns (n', evs)"
    by (simp add: node1_held_eq node1_def NewNode_def answering_net_def
        leave_CS_def Let_def GetLamportClock_eq flush_deferred_Cons flush_deferred_Nil
        SendReleaseMSG_def after_events_def)
  have req: "\<exists>r n' evs. RequestAccess answering_net node1_wanted \<lparr>NodeId = ''node2'', LamportTimestamp = 3\<rparr>
          = Returns (r, n', evs)"
    by (simp add: RequestAccess_def UpdateLamportClock_eq SendReleaseMSG_def isHigherPriority_Some
        node1_wanted_eq node1_def NewNode_def answering_net_def)
  have vals: "LamportClock node1_wanted = 5" "Release node1_wanted = []" "ID node1_wanted = ''node1''"
    "LamportClock node1_held = 5"
    "inbound_release answering_net ''node2'' = Some \<lparr>rel_NodeId = ''node2'', rel_LamportTimestamp = 2\<rparr>"
    by (simp_all add: node1_held_eq node1_wanted_eq node1_def NewNode_def answering_net_def)
  from request_replies_merged_release_replies_dropped
      [where n = node1_wanted and net = answering_net and c = "''localhost:5002''"
        and peerID = "''node2''" and resp = "\<lparr>Granted = False, resp_LamportTimestamp = 100\<rparr>"
        and ts = 6 and ack = "\<lparr>Acknowledged = True, ack_LamportTimestamp = 100\<rparr>"
        and h = node1_held and req = "\<lparr>NodeId = ''node2'', LamportTimestamp = 3\<rparr>"]
    reply ack leave req
  show ?thesis unfolding vals by (simp add: Let_def) blast
qed

text \<open>
  C5 as stated fails for \<open>ReleaseAccess\<close>: the peer answers the release call with
  timestamp 100, and the clock of the caller is 6 afterwards.
\<close>

theorem release_reply_not_merged:
  "release_rpc answering_net ''localhost:5003'' \<lparr>rel_NodeId = ''node1'', rel_LamportTimestamp = 6\<rparr>
     = Reply \<lparr>Acknowledged = True, ack_LamportTimestamp = 100\<rparr>
   \<and> leave_CS answering_net ((enter_CS node1_wanted)\<lparr>DeferredResponses := [''node3'']\<rparr>)
     = Returns (node1\<lparr>LamportClock := 6,
                  CurrentRequest := Some \<lparr>NodeId = ''node1'', LamportTimestamp = 5\<rparr>\<rparr>,
                [LeaveCS, ReleaseSent ''node3'' \<lparr>rel_NodeId = ''node1'', rel_LamportTimestamp = 6\<rparr>])
   \<and> LamportClock (node1\<lparr>LamportClock := 6,
                  CurrentRequest := Some \<lparr>NodeId = ''node1'', LamportTimestamp = 5\<rparr>\<rparr>) < 100"
  by (simp add: enter_CS_def node1_wanted_eq node1_def NewNode_def answering_net_def
      leave_CS_def Let_def GetLamportClock_eq flush_deferred_Cons flush_deferred_Nil SendReleaseMSG_def
      after_events_def)

end
